theory Spec2Isabelle
  imports
    Main
    "HOL-Library.Product_Lexorder"
    "HOL-Library.List_Lexorder"
    "HOL-Library.Char_ord"
    "HOL-Library.AList"
begin

section \<open>Datetime and Range\<close>

text \<open>
  Modelled from the spec: the Datetime class is not under src/. The spec treats it as a
  primitive that yields year and month and supports comparison and epoch conversion. An
  instant is the triple of its calendar year, its month (1 to 12) and the seconds elapsed
  since the first day of that month at 00:00. Instants compare chronologically, which is
  the lexicographic order of the triple.
\<close>

type_synonym datetime = "int \<times> int \<times> nat"

definition year :: "datetime \<Rightarrow> int" where
  "year d = fst d"

definition month :: "datetime \<Rightarrow> int" where
  "month d = fst (snd d)"

text \<open>The constructor \<^verbatim>\<open>Datetime (y, m, d)\<close>: day \<open>d\<close> of month \<open>m\<close> at 00:00.\<close>

definition Datetime :: "int \<Rightarrow> int \<Rightarrow> int \<Rightarrow> datetime" where
  "Datetime y m d = (y, m, nat (d - 1) * 86400)"

text \<open>The instant whose \<^verbatim>\<open>toEpoch ()\<close> is 0: 1970-01-01 00:00.\<close>

definition epoch0 :: datetime where
  "epoch0 = (1970, 1, 0)"

definition valid_datetime :: "datetime \<Rightarrow> bool" where
  "valid_datetime d = (0 \<le> year d \<and> year d \<le> 9999 \<and> 1 \<le> month d \<and> month d \<le> 12)"

text \<open>
  Modelled from the spec: the Range class is not under src/. A Range is half-open,
  \<open>[start, end)\<close>, and an end at the 0-epoch denotes an open end.
\<close>

record range =
  start :: datetime
  end' :: datetime

definition is_open :: "'a range_scheme \<Rightarrow> bool" where
  "is_open r = (end' r = epoch0)"

text \<open>
  Modelled from the spec: \<^verbatim>\<open>startsWithin (other)\<close> is true iff the start lies in
  \<open>[other.start, other.end)\<close>.
\<close>

definition startsWithin :: "'a range_scheme \<Rightarrow> 'b range_scheme \<Rightarrow> bool" where
  "startsWithin r other =
     (start other \<le> start r \<and> (is_open other \<or> start r < end' other))"


text \<open>
  An Interval is a Range that carries tags and an annotation. The tags are a
  \<^verbatim>\<open>std::set\<close> of strings, given here by the list a traversal of the set yields.
\<close>

record interval = range +
  tags :: "string list"
  annotation :: string

section \<open>Datafile names and month ranges\<close>

definition digit_of :: "nat \<Rightarrow> char" where
  "digit_of d = ''0123456789'' ! d"

definition digit_value :: "char \<Rightarrow> nat" where
  "digit_value c = of_char c - 48"

function show_nat :: "nat \<Rightarrow> string" where
  "show_nat n = (if n < 10 then [digit_of n] else show_nat (n div 10) @ [digit_of (n mod 10)])"
  by pat_completeness auto
termination
  by (relation "measure (\<lambda>n. n)") auto

declare show_nat.simps [simp del]

text \<open>The text \<^verbatim>\<open>operator<<\<close> writes for an \<^verbatim>\<open>int\<close>.\<close>

definition show_int :: "int \<Rightarrow> string" where
  "show_int i = (if i < 0 then CHR ''-'' # show_nat (nat (- i)) else show_nat (nat i))"

text \<open>\<^verbatim>\<open>std::setw (w)\<close> with \<^verbatim>\<open>std::setfill ('0')\<close>: pad on the left up to width \<open>w\<close>.\<close>

definition setw_fill :: "nat \<Rightarrow> string \<Rightarrow> string" where
  "setw_fill w s = replicate (w - length s) CHR ''0'' @ s"

text \<open>The path \<^verbatim>\<open>getDatafile\<close> builds in its string stream.\<close>

definition datafile_path :: "string \<Rightarrow> int \<Rightarrow> int \<Rightarrow> string" where
  "datafile_path location y m =
     location @ ''/'' @ setw_fill 4 (show_int y) @ ''-'' @ setw_fill 2 (show_int m) @ ''.data''"

text \<open>
  Modelled from the spec: the Datafile class is not under src/. A Datafile owns a file
  name of the form YYYY-MM.data under the store location and the ordered sequence of the
  lines of that file, which it reads on first access and keeps in memory; a dirty flag
  marks a file that needs flushing. The serialisation of an interval and its parser are
  not under src/ either: a line is represented by the interval it parses to.
\<close>

record datafile =
  name :: string
  lines :: "interval list"
  lines_loaded :: bool
  dirty :: bool

definition Datafile :: "string \<Rightarrow> datafile" where
  "Datafile path = \<lparr>name = path, lines = [], lines_loaded = False, dirty = False\<rparr>"

definition basename :: "string \<Rightarrow> string" where
  "basename p = rev (takeWhile (\<lambda>c. c \<noteq> CHR ''/'') (rev p))"

definition digits_value :: "string \<Rightarrow> int" where
  "digits_value s = int (foldl (\<lambda>a c. 10 * a + digit_value c) 0 s)"

definition next_month :: "int \<times> int \<Rightarrow> int \<times> int" where
  "next_month ym = (if snd ym + 1 > 12 then (fst ym + 1, 1) else (fst ym, snd ym + 1))"

text \<open>The month range \<open>[first day of y-m 00:00, first day of the next month 00:00)\<close>.\<close>

definition month_range :: "int \<Rightarrow> int \<Rightarrow> range" where
  "month_range y m =
     \<lparr>start = Datetime y m 1,
      end' = Datetime (fst (next_month (y, m))) (snd (next_month (y, m))) 1\<rparr>"

text \<open>
  Modelled from the spec: \<^verbatim>\<open>Datafile::range ()\<close> is the month range derived from
  the name YYYY-MM.data: the first four characters of the base name give the year, the
  sixth and seventh the month.
\<close>

definition Datafile_range :: "datafile \<Rightarrow> range" where
  "Datafile_range f =
     (let b = basename (name f)
      in month_range (digits_value (take 4 b)) (digits_value (take 2 (drop 5 b))))"

section \<open>Resolving the Datafile of a range\<close>

text \<open>
  \<^verbatim>\<open>findDatafile\<close> walks the files with a reverse iterator, from the last one to the
  first. \<open>findDatafile_loop\<close> is that loop on the files still to visit, newest first;
  the file visited has as many files before it in the vector as remain after it here. The
  result is the position in the vector of the iterator returned: \<open>r_it.base () - 1\<close> is
  the position of the file visited, \<open>std::prev (r_it).base () - 1\<close> the position after
  it, and \<open>files->begin ()\<close> is position 0.
\<close>

fun findDatafile_loop :: "'a range_scheme \<Rightarrow> datafile list \<Rightarrow> nat" where
  "findDatafile_loop r [] = 0"
| "findDatafile_loop r (f # older) =
     (if startsWithin r (Datafile_range f) then length older
      else if end' (Datafile_range f) < start r then Suc (length older)
      else findDatafile_loop r older)"

definition findDatafile :: "'a range_scheme \<Rightarrow> datafile list \<Rightarrow> nat" where
  "findDatafile r files = findDatafile_loop r (rev files)"

text \<open>
  The resolution algorithm in the words of the spec: return the file whose range contains
  the start, or the insertion point immediately after the first file, from the newest
  backward, whose end is at most the start, or the front when there is no such file.
\<close>

fun findDatafile_spec_loop :: "'a range_scheme \<Rightarrow> datafile list \<Rightarrow> nat" where
  "findDatafile_spec_loop r [] = 0"
| "findDatafile_spec_loop r (f # older) =
     (if startsWithin r (Datafile_range f) then length older
      else if end' (Datafile_range f) \<le> start r then Suc (length older)
      else findDatafile_spec_loop r older)"

definition findDatafile_spec :: "'a range_scheme \<Rightarrow> datafile list \<Rightarrow> nat" where
  "findDatafile_spec r files = findDatafile_spec_loop r (rev files)"

text \<open>\<^verbatim>\<open>files->emplace (it, path)\<close>: a new Datafile before position \<open>it\<close>.\<close>

definition emplace :: "nat \<Rightarrow> string \<Rightarrow> datafile list \<Rightarrow> datafile list" where
  "emplace it path files = take it files @ [Datafile path] @ drop it files"

text \<open>
  \<^verbatim>\<open>getDatafile\<close> returns a reference into the vector: here the vector, with the new
  Datafile when one was created, and the position of the Datafile referred to.
\<close>

definition getDatafile :: "string \<Rightarrow> interval \<Rightarrow> datafile list \<Rightarrow> datafile list \<times> nat" where
  "getDatafile location interval files =
     (let it = findDatafile interval files
      in if it = length files \<or> \<not> startsWithin interval (Datafile_range (files ! it))
         then (emplace it (datafile_path location (year (start interval)) (month (start interval))) files, it)
         else (files, it))"

section \<open>Datafile\<close>

text \<open>
  Modelled from the spec: lines compare by their parsed start instant, with ties broken
  by the end instant (an open end is ordered after any closed end with the same start),
  and final ties by the raw serialised bytes, for which the tags and the annotation, the
  rest of the line, stand here.
\<close>

definition end_key :: "datetime \<Rightarrow> nat \<times> datetime" where
  "end_key e = (if e = epoch0 then (1, e) else (0, e))"

definition line_key :: "interval \<Rightarrow> datetime \<times> (nat \<times> datetime) \<times> string list \<times> string" where
  "line_key l = (start l, end_key (end' l), tags l, annotation l)"

definition line_less :: "interval \<Rightarrow> interval \<Rightarrow> bool" where
  "line_less a b = (line_key a < line_key b)"

text \<open>
  The data files of the store directory: each path with the lines of the file. A path
  occurs at most once.
\<close>

type_synonym directory = "(string \<times> interval list) list"

text \<open>Modelled from the spec: the lines are read from the file on first access.\<close>

definition load_lines :: "directory \<Rightarrow> datafile \<Rightarrow> datafile" where
  "load_lines d f =
     (if lines_loaded f then f
      else f\<lparr>lines := (case map_of d (name f) of None \<Rightarrow> [] | Some ls \<Rightarrow> ls),
             lines_loaded := True\<rparr>)"

definition allLines :: "directory \<Rightarrow> datafile \<Rightarrow> interval list" where
  "allLines d f = lines (load_lines d f)"

text \<open>
  Modelled from the spec: the position a binary search finds for a line in a sorted
  file, before the first line that is not less than it.
\<close>

fun insert_line :: "interval \<Rightarrow> interval list \<Rightarrow> interval list" where
  "insert_line l [] = [l]"
| "insert_line l (x # xs) = (if line_less x l then x # insert_line l xs else l # x # xs)"

text \<open>
  Modelled from the spec: \<^verbatim>\<open>Datafile::addInterval\<close> inserts the serialised line at
  the correct sorted position and returns true iff the file was changed.
\<close>

definition Datafile_addInterval :: "directory \<Rightarrow> interval \<Rightarrow> datafile \<Rightarrow> bool \<times> datafile" where
  "Datafile_addInterval d interval f =
     (let f1 = load_lines d f
      in (True, f1\<lparr>lines := insert_line interval (lines f1), dirty := True\<rparr>))"

text \<open>
  Modelled from the spec: \<^verbatim>\<open>Datafile::deleteInterval\<close> removes the matching
  serialised line; absence is tolerated (returns false).
\<close>

definition Datafile_deleteInterval :: "directory \<Rightarrow> interval \<Rightarrow> datafile \<Rightarrow> bool \<times> datafile" where
  "Datafile_deleteInterval d interval f =
     (let f1 = load_lines d f
      in if interval \<in> set (lines f1)
         then (True, f1\<lparr>lines := remove1 interval (lines f1), dirty := True\<rparr>)
         else (False, f1))"

text \<open>
  Modelled from the spec: \<^verbatim>\<open>Datafile::commit\<close> writes, if dirty, the full line list
  and then clears the dirty flag.
\<close>

definition Datafile_commit :: "directory \<Rightarrow> datafile \<Rightarrow> directory \<times> datafile" where
  "Datafile_commit d f =
     (if dirty f then (AList.update (name f) (lines f) d, f\<lparr>dirty := False\<rparr>) else (d, f))"

section \<open>Tag Index\<close>

text \<open>
  Modelled from the spec: the TagInfoDatabase class is not under src/. It maps a tag to
  an unsigned count and has a flag that marks a change. \<^verbatim>\<open>incrementTag\<close> returns the
  previous count, and -1 for a tag that was absent, which it creates with count 1;
  \<^verbatim>\<open>decrementTag\<close> is clamped at zero, and leaves an absent tag absent (entries are
  created on first increment).
\<close>

record tagInfoDatabase =
  tagInformation :: "(string \<times> nat) list"
  is_modified :: bool

definition TagInfoDatabase :: tagInfoDatabase where
  "TagInfoDatabase = \<lparr>tagInformation = [], is_modified = False\<rparr>"

definition TagInfoDatabase_add :: "string \<Rightarrow> nat \<Rightarrow> tagInfoDatabase \<Rightarrow> tagInfoDatabase" where
  "TagInfoDatabase_add tag count t =
     t\<lparr>tagInformation := AList.update tag count (tagInformation t), is_modified := True\<rparr>"

definition incrementTag :: "string \<Rightarrow> tagInfoDatabase \<Rightarrow> int \<times> tagInfoDatabase" where
  "incrementTag tag t =
     (case map_of (tagInformation t) tag of
        None \<Rightarrow> (- 1, TagInfoDatabase_add tag 1 t)
      | Some c \<Rightarrow> (int c, TagInfoDatabase_add tag (c + 1) t))"

definition decrementTag :: "string \<Rightarrow> tagInfoDatabase \<Rightarrow> tagInfoDatabase" where
  "decrementTag tag t =
     (case map_of (tagInformation t) tag of
        None \<Rightarrow> t
      | Some c \<Rightarrow> TagInfoDatabase_add tag (c - 1) t)"

definition clear_modified :: "tagInfoDatabase \<Rightarrow> tagInfoDatabase" where
  "clear_modified t = t\<lparr>is_modified := False\<rparr>"



text \<open>
  The file tags.data, as the JSON parser (not under src/) reads it: a JSON value, or
  text that the parser rejects.
\<close>

datatype json = JObject "(string \<times> json) list" | JNumber nat | JOther

datatype tags_content = Unparsable | Parsed json

text \<open>
  Modelled from the spec: \<^verbatim>\<open>toJson\<close> writes one JSON object keyed by tag, with
  embedded double quotes escaped, each value an object with the member "count".
\<close>

fun escape_quotes :: "string \<Rightarrow> string" where
  "escape_quotes [] = []"
| "escape_quotes (c # s) =
     (if c = CHR 0x22 then CHR 0x5C # CHR 0x22 # escape_quotes s else c # escape_quotes s)"

definition toJson :: "tagInfoDatabase \<Rightarrow> json" where
  "toJson t =
     JObject (map (\<lambda>(tag, c). (escape_quotes tag, JObject [(''count'', JNumber c)]))
       (tagInformation t))"

text \<open>\<^verbatim>\<open>str_replace (key, "\\\"", "\"")\<close>: every backslash-quote becomes a quote.\<close>

fun str_replace_quote :: "string \<Rightarrow> string" where
  "str_replace_quote (a # b # s) =
     (if a = CHR 0x5C \<and> b = CHR 0x22 then CHR 0x22 # str_replace_quote s
      else a # str_replace_quote (b # s))"
| "str_replace_quote s = s"

section \<open>Undo journal\<close>

text \<open>
  The class UndoAction holds a type, a before payload and an after payload. A payload is
  the JSON of an interval or the empty string; the JSON of an interval is not under
  src/, so a payload is the interval it describes, or \<open>None\<close> for the empty string.
\<close>

record undoAction =
  type :: string
  before :: "interval option"
  after :: "interval option"

text \<open>
  Modelled from the spec: the Journal class is not under src/.
  \<^verbatim>\<open>recordIntervalAction (before, after)\<close> appends one record of kind interval. Only
  the sequence of recorded actions is kept here; transaction brackets and the pruning of
  old transactions are grouping and storage of that sequence.
\<close>

definition recordIntervalAction ::
  "interval option \<Rightarrow> interval option \<Rightarrow> undoAction list \<Rightarrow> undoAction list" where
  "recordIntervalAction b a journal = journal @ [\<lparr>type = ''interval'', before = b, after = a\<rparr>]"

section \<open>Database\<close>

datatype error = NotFound | AssertionFailed | Undefined | NoReturn

text \<open>
  The Database with the directory it lives in: the data files, the file tags.data
  (\<open>None\<close> when it does not exist), and the console, which holds the tags that were
  announced as new.
\<close>

record database =
  location :: string
  files :: "datafile list"
  tagInfoDatabase :: tagInfoDatabase
  journal :: "undoAction list"
  console :: "string list"
  disk :: directory
  tags_data :: "tags_content option"

text \<open>
  A member function that throws leaves the Database as it was at the throw: its result is
  \<open>Inl\<close> of the error with that Database, or \<open>Inr\<close> of the Database it returns.
\<close>

type_synonym outcome = "(error \<times> database) + database"

subsection \<open>The two-level iterator\<close>

text \<open>
  Both iterator classes hold an iterator over files and an iterator over the lines of the
  current file, each with its end. An iterator into a sequence is given by the part of the
  sequence from its position on, so the end is the empty list, \<open>++\<close> drops the head and
  \<open>*\<close> reads it. The class \<^verbatim>\<open>iterator\<close> runs over the files from the last to the
  first and over the lines of each from the last to the first; \<^verbatim>\<open>reverse_iterator\<close>
  runs over both from the first to the last. Their code is the same otherwise.
\<close>

record 'a iterator =
  files_it :: "'a list list"
  lines_it :: "'a list"

text \<open>
  The loop
  \<^verbatim>\<open>while ((lines_it == lines_end) && (files_it != files_end))\<close>
  of the constructors and of \<^verbatim>\<open>operator++\<close>.
\<close>

fun advance_files :: "'a list list \<Rightarrow> 'a list \<Rightarrow> 'a iterator" where
  "advance_files [] ls = \<lparr>files_it = [], lines_it = ls\<rparr>"
| "advance_files (f # fs) ls =
     (if ls = []
      then (case fs of
              [] \<Rightarrow> \<lparr>files_it = [], lines_it = ls\<rparr>
            | g # _ \<Rightarrow> advance_files fs g)
      else \<lparr>files_it = f # fs, lines_it = ls\<rparr>)"

definition iterator_new :: "'a list list \<Rightarrow> 'a iterator" where
  "iterator_new fbegin =
     (if fbegin \<noteq> [] then advance_files fbegin (hd fbegin)
      else \<lparr>files_it = fbegin, lines_it = []\<rparr>)"

definition iterator_incr :: "'a iterator \<Rightarrow> 'a iterator" where
  "iterator_incr it =
     (if files_it it \<noteq> []
      then (if lines_it it \<noteq> [] then advance_files (files_it it) (tl (lines_it it)) else it)
      else it)"

text \<open>
  \<^verbatim>\<open>operator==\<close>: an iterator at the end of the files equals any other at the end;
  otherwise both positions are compared.
\<close>

definition iterator_eq :: "'a iterator \<Rightarrow> 'a iterator \<Rightarrow> bool" where
  "iterator_eq it other =
     (if files_it other = [] then files_it it = []
      else files_it it = files_it other \<and> lines_it it = lines_it other)"

text \<open>
  The loop \<^verbatim>\<open>for (; it != end; ++it)\<close> that collects \<^verbatim>\<open>*it\<close>. Dereferencing
  asserts \<^verbatim>\<open>lines_it != lines_end\<close>; the result is \<open>None\<close> when the assertion
  fails or the loop does not end.
\<close>

partial_function (option) iterate :: "'a iterator \<Rightarrow> 'a iterator \<Rightarrow> 'a list option" where
  "iterate it stop =
     (if iterator_eq it stop then Some []
      else (case lines_it it of
              [] \<Rightarrow> None
            | l # _ \<Rightarrow> Option.bind (iterate (iterator_incr it) stop) (\<lambda>rest. Some (l # rest))))"

declare iterate.simps [code]

definition Database_begin :: "database \<Rightarrow> interval iterator" where
  "Database_begin db = iterator_new (map (\<lambda>f. rev (allLines (disk db) f)) (rev (files db)))"

definition Database_end :: "database \<Rightarrow> interval iterator" where
  "Database_end db = iterator_new []"

definition Database_rbegin :: "database \<Rightarrow> interval iterator" where
  "Database_rbegin db = iterator_new (map (allLines (disk db)) (files db))"

definition Database_rend :: "database \<Rightarrow> interval iterator" where
  "Database_rend db = iterator_new []"

subsection \<open>Mutation\<close>

text \<open>The loop over the tags of \<^verbatim>\<open>addInterval\<close>, with the note printed for a new tag.\<close>

fun increment_tags ::
  "bool \<Rightarrow> string list \<Rightarrow> tagInfoDatabase \<Rightarrow> string list \<Rightarrow> tagInfoDatabase \<times> string list" where
  "increment_tags verbose [] t out = (t, out)"
| "increment_tags verbose (tag # ts) t out =
     (let (previous, t1) = incrementTag tag t
      in increment_tags verbose ts t1 (if previous = - 1 \<and> verbose then out @ [tag] else out))"

text \<open>
  \<^verbatim>\<open>Database::addInterval\<close>. The Datafile class is not under src/, so its
  \<^verbatim>\<open>addInterval\<close> is the parameter \<open>df_add\<close>: it returns whether the file was
  changed, and the file.
\<close>

definition addInterval_with ::
  "(directory \<Rightarrow> interval \<Rightarrow> datafile \<Rightarrow> bool \<times> datafile) \<Rightarrow> database \<Rightarrow> interval \<Rightarrow> bool \<Rightarrow> outcome" where
  "addInterval_with df_add db interval verbose =
     (if \<not> (end' interval = epoch0 \<or> start interval \<le> end' interval) then Inl (AssertionFailed, db)
      else
        let (t, out) = increment_tags verbose (tags interval) (tagInfoDatabase db) (console db);
            (fs, it) = getDatafile (location db) interval (files db);
            (changed, f) = df_add (disk db) interval (fs ! it)
        in Inr (db\<lparr>files := fs[it := f], tagInfoDatabase := t, console := out,
                   journal := (if changed then recordIntervalAction None (Some interval) (journal db)
                               else journal db)\<rparr>))"

definition Database_addInterval :: "database \<Rightarrow> interval \<Rightarrow> bool \<Rightarrow> outcome" where
  "Database_addInterval = addInterval_with Datafile_addInterval"

text \<open>
  \<^verbatim>\<open>Database::deleteInterval\<close>, with \<^verbatim>\<open>Datafile::deleteInterval\<close> as the
  parameter \<open>df_delete\<close>; its result is not looked at.
\<close>

definition deleteInterval_with ::
  "(directory \<Rightarrow> interval \<Rightarrow> datafile \<Rightarrow> bool \<times> datafile) \<Rightarrow> database \<Rightarrow> interval \<Rightarrow> outcome" where
  "deleteInterval_with df_delete db interval =
     (let t = fold decrementTag (tags interval) (tagInfoDatabase db);
          (fs, i) = getDatafile (location db) interval (files db);
          fs1 = fs[i := snd (df_delete (disk db) interval (fs ! i))];
          db1 = db\<lparr>files := fs1, tagInfoDatabase := t\<rparr>;
          it = findDatafile interval fs1
      in if it = length fs1 \<or> \<not> startsWithin interval (Datafile_range (fs1 ! it))
         then Inl (NotFound, db1)
         else Inr (db1\<lparr>journal := recordIntervalAction (Some interval) None (journal db)\<rparr>))"

definition Database_deleteInterval :: "database \<Rightarrow> interval \<Rightarrow> outcome" where
  "Database_deleteInterval = deleteInterval_with Datafile_deleteInterval"

text \<open>The loop over the files of \<^verbatim>\<open>Database::commit\<close>.\<close>

fun commit_files :: "directory \<Rightarrow> datafile list \<Rightarrow> directory \<times> datafile list" where
  "commit_files d [] = (d, [])"
| "commit_files d (f # fs) =
     (let (d1, f1) = Datafile_commit d f; (d2, fs1) = commit_files d1 fs in (d2, f1 # fs1))"

definition Database_commit :: "database \<Rightarrow> database" where
  "Database_commit db =
     (let (d, fs) = commit_files (disk db) (files db)
      in db\<lparr>files := fs, disk := d,
            tags_data := (if is_modified (tagInfoDatabase db)
                          then Some (Parsed (toJson (tagInfoDatabase db)))
                          else tags_data db)\<rparr>)"


subsection \<open>Opening a store\<close>

text \<open>\<^verbatim>\<open>std::string::find\<close>: the position of the first occurrence, if any.\<close>

fun string_find :: "string \<Rightarrow> string \<Rightarrow> nat option" where
  "string_find pat [] = (if pat = [] then Some 0 else None)"
| "string_find pat (c # s) =
     (if take (length pat) (c # s) = pat then Some 0 else map_option Suc (string_find pat s))"

text \<open>
  The lambda \<^verbatim>\<open>not_valid_filename\<close>. For a name of fewer than 8 characters the index
  \<^verbatim>\<open>filename.length () - 8\<close> wraps around and the read is out of range; such a name
  is taken as not valid.
\<close>

definition not_valid_filename :: "string \<Rightarrow> bool" where
  "not_valid_filename filename =
     (length filename < 8
      \<or> filename ! (length filename - 8) \<noteq> CHR ''-''
      \<or> string_find ''.data'' filename \<noteq> Some (length filename - 5))"

text \<open>
  \<^verbatim>\<open>Database::initializeDatafiles\<close>: the names of the directory that are valid,
  sorted, each made a Datafile.
\<close>

definition initializeDatafiles :: "directory \<Rightarrow> datafile list" where
  "initializeDatafiles d =
     map Datafile (sort (filter (\<lambda>filename. \<not> not_valid_filename filename) (map fst d)))"

text \<open>
  The loop over the members of the JSON object in \<^verbatim>\<open>initializeTagDatabase\<close>.
  \<open>None\<close> is the string thrown for a missing member "count". A member that is no
  object, or a count that is no number, is read through a pointer of the wrong type or a
  null pointer: \<open>Some (Inl Undefined)\<close>. The count is stored through the cast
  \<^verbatim>\<open>(unsigned int) number->_dvalue\<close>, which keeps 32 bits of it: a count of
  \<open>2 ^ 32\<close> is stored as 0.
\<close>

fun load_tags :: "(string \<times> json) list \<Rightarrow> tagInfoDatabase \<Rightarrow> (error + tagInfoDatabase) option" where
  "load_tags [] t = Some (Inr t)"
| "load_tags ((k, v) # rest) t =
     (case v of
        JObject members \<Rightarrow>
          (case map_of members ''count'' of
             None \<Rightarrow> None
           | Some (JNumber n) \<Rightarrow> load_tags rest (TagInfoDatabase_add (str_replace_quote k) (n mod 2 ^ 32) t)
           | Some _ \<Rightarrow> Some (Inl Undefined))
      | _ \<Rightarrow> Some (Inl Undefined))"

text \<open>
  The part of \<^verbatim>\<open>initializeTagDatabase\<close> inside \<^verbatim>\<open>try\<close>: \<open>None\<close> when a
  string is thrown (the parser rejects the content, the content is no object, or a count
  is missing).
\<close>

definition parse_tags :: "tags_content \<Rightarrow> (error + tagInfoDatabase) option" where
  "parse_tags content =
     (case content of
        Unparsable \<Rightarrow> None
      | Parsed (JObject members) \<Rightarrow> load_tags members TagInfoDatabase
      | Parsed _ \<Rightarrow> None)"

text \<open>The loop that recreates the tag database from the lines of the store.\<close>

definition recreate_tags :: "interval list \<Rightarrow> tagInfoDatabase \<Rightarrow> tagInfoDatabase" where
  "recreate_tags ls t = fold (\<lambda>l t1. fold (\<lambda>tag t2. snd (incrementTag tag t2)) (tags l) t1) ls t"

definition recreate :: "database \<Rightarrow> outcome" where
  "recreate db =
     (let db1 = db\<lparr>tagInfoDatabase := TagInfoDatabase,
                   tags_data := Some (Parsed (toJson TagInfoDatabase))\<rparr>
      in if iterator_eq (Database_begin db1) (Database_end db1) then Inr db1
         else (case iterate (Database_begin db1) (Database_end db1) of
                 None \<Rightarrow> Inl (NoReturn, db1)
               | Some ls \<Rightarrow> Inr (db1\<lparr>tagInfoDatabase := recreate_tags ls TagInfoDatabase\<rparr>)))"

definition initializeTagDatabase :: "database \<Rightarrow> outcome" where
  "initializeTagDatabase db =
     (case tags_data db of
        None \<Rightarrow> recreate db
      | Some content \<Rightarrow>
          (case parse_tags content of
             None \<Rightarrow> recreate db
           | Some (Inl e) \<Rightarrow> Inl (e, db)
           | Some (Inr t) \<Rightarrow> Inr (db\<lparr>tagInfoDatabase := clear_modified t\<rparr>)))"

text \<open>
  \<^verbatim>\<open>Database::initialize\<close> on a directory: the journal reads back the records that
  were written to undo.data.
\<close>

definition initialize ::
  "string \<Rightarrow> directory \<Rightarrow> tags_content option \<Rightarrow> undoAction list \<Rightarrow> outcome" where
  "initialize loc d td undo =
     initializeTagDatabase
       \<lparr>location = loc, files = initializeDatafiles d, tagInfoDatabase = TagInfoDatabase,
        journal = undo, console = [], disk = d, tags_data = td\<rparr>"

text \<open>Constructing a Database again on the directory of \<open>db\<close>.\<close>

definition reopen :: "database \<Rightarrow> outcome" where
  "reopen db = initialize (location db) (disk db) (tags_data db) (journal db)"

subsection \<open>Splitting a range into months\<close>




section \<open>Notions used in the statements\<close>

text \<open>
  The iterator \<open>it\<close> that \<^verbatim>\<open>findDatafile\<close> returned refers to a Datafile whose range
  covers the start of \<open>r\<close>: the negation of the test
  \<^verbatim>\<open>it == files->end () || ! interval.startsWithin (it->range ())\<close>.
\<close>

definition covers :: "'a range_scheme \<Rightarrow> datafile list \<Rightarrow> nat \<Rightarrow> bool" where
  "covers r dfs it = (it \<noteq> length dfs \<and> startsWithin r (Datafile_range (dfs ! it)))"

text \<open>A Datafile at which the loop of \<^verbatim>\<open>findDatafile\<close> returns.\<close>

definition fires :: "'a range_scheme \<Rightarrow> datafile \<Rightarrow> bool" where
  "fires r f = (startsWithin r (Datafile_range f) \<or> end' (Datafile_range f) < start r)"

text \<open>
  A caller runs the next call on the Database the previous call returned; an exception
  ends the sequence.
\<close>

definition and_then :: "outcome \<Rightarrow> (database \<Rightarrow> outcome) \<Rightarrow> outcome" where
  "and_then r f = (case r of Inl e \<Rightarrow> Inl e | Inr db \<Rightarrow> f db)"


text \<open>The constructor \<^verbatim>\<open>Interval (start, end)\<close>: no tags, no annotation.\<close>

definition Interval :: "datetime \<Rightarrow> datetime \<Rightarrow> interval" where
  "Interval s e = \<lparr>start = s, end' = e, tags = [], annotation = []\<rparr>"

text \<open>
  Three intervals of one hour, starting 2020-01-15 00:00, 2020-02-01 00:00 and
  2020-02-15 00:00.
\<close>

definition jan15 :: interval where
  "jan15 = Interval (2020, 1, 1209600) (2020, 1, 1213200)"

definition feb01 :: interval where
  "feb01 = Interval (2020, 2, 0) (2020, 2, 3600)"

definition feb15 :: interval where
  "feb15 = Interval (2020, 2, 1209600) (2020, 2, 1213200)"


text \<open>The Database constructed on an empty directory.\<close>

definition store0 :: database where
  "store0 = \<lparr>location = ''.'', files = [], tagInfoDatabase = TagInfoDatabase,
     journal = [], console = [], disk = [], tags_data = Some (Parsed (JObject []))\<rparr>"










section \<open>File names and the ranges read back from them\<close>

lemma digit_value_digit_of: "d < 10 \<Longrightarrow> digit_value (digit_of d) = d"
proof -
  assume "d < 10"
  then have "d = 0 \<or> d = 1 \<or> d = 2 \<or> d = 3 \<or> d = 4 \<or> d = 5 \<or> d = 6 \<or> d = 7 \<or> d = 8 \<or> d = 9"
    by arith
  then show ?thesis
    by (elim disjE) (simp_all add: digit_of_def digit_value_def)
qed

lemma digit_of_not_slash: "d < 10 \<Longrightarrow> digit_of d \<noteq> CHR ''/''"
proof -
  assume "d < 10"
  then have "d = 0 \<or> d = 1 \<or> d = 2 \<or> d = 3 \<or> d = 4 \<or> d = 5 \<or> d = 6 \<or> d = 7 \<or> d = 8 \<or> d = 9"
    by arith
  then show ?thesis
    by (elim disjE) (simp_all add: digit_of_def)
qed

lemma show_nat_no_slash: "CHR ''/'' \<notin> set (show_nat n)"
proof (induction n rule: show_nat.induct)
  case (1 n)
  show ?case
  proof (cases "n < 10")
    case True
    then show ?thesis
      using digit_of_not_slash [of n] by (subst show_nat.simps) auto
  next
    case False
    have "n mod 10 < 10" by simp
    then have "digit_of (n mod 10) \<noteq> CHR ''/''" by (rule digit_of_not_slash)
    with False 1 show ?thesis
      by (subst show_nat.simps) auto
  qed
qed

lemma foldl_digits_show_nat: "foldl (\<lambda>a c. 10 * a + digit_value c) 0 (show_nat n) = n"
proof (induction n rule: show_nat.induct)
  case (1 n)
  show ?case
  proof (cases "n < 10")
    case True
    then show ?thesis
      by (subst show_nat.simps) (simp add: digit_value_digit_of)
  next
    case False
    have "n mod 10 < 10" by simp
    then have d: "digit_value (digit_of (n mod 10)) = n mod 10" by (rule digit_value_digit_of)
    from False 1 have ih: "foldl (\<lambda>a c. 10 * a + digit_value c) 0 (show_nat (n div 10)) = n div 10"
      by simp
    from False show ?thesis
      by (subst show_nat.simps) (simp add: d ih)
  qed
qed

lemma foldl_digits_zeros:
  "foldl (\<lambda>a c. 10 * a + digit_value c) 0 (replicate k CHR ''0'' @ s) =
   foldl (\<lambda>a c. 10 * a + digit_value c) 0 s"
  by (induction k) (simp_all add: digit_value_def)

lemma digits_value_setw_fill: "digits_value (setw_fill w (show_nat n)) = int n"
  by (simp add: digits_value_def setw_fill_def foldl_digits_zeros foldl_digits_show_nat del: foldl_append)

lemma length_show_nat: "0 < k \<Longrightarrow> n < 10 ^ k \<Longrightarrow> length (show_nat n) \<le> k"
proof (induction n arbitrary: k rule: show_nat.induct)
  case (1 n)
  show ?case
  proof (cases "n < 10")
    case True
    with 1 show ?thesis by (subst show_nat.simps) simp
  next
    case False
    with 1(2,3) have k: "1 < k" by (cases "k = 1") auto
    then obtain j where j: "k = Suc j" "0 < j" by (cases k) auto
    with 1(3) have "n div 10 < 10 ^ j" by (simp add: less_mult_imp_div_less mult.commute)
    with 1(1) [OF False j(2)] have "length (show_nat (n div 10)) \<le> j" by simp
    with False j show ?thesis by (subst show_nat.simps) simp
  qed
qed

lemma length_setw_fill: "length s \<le> w \<Longrightarrow> length (setw_fill w s) = w"
  by (simp add: setw_fill_def)

lemma setw_fill_no_slash: "CHR ''/'' \<notin> set s \<Longrightarrow> CHR ''/'' \<notin> set (setw_fill w s)"
  by (auto simp: setw_fill_def)

lemma basename_append: "CHR ''/'' \<notin> set b \<Longrightarrow> basename (loc @ ''/'' @ b) = b"
proof -
  assume b: "CHR ''/'' \<notin> set b"
  have "takeWhile (\<lambda>c. c \<noteq> CHR ''/'') (rev b @ CHR ''/'' # rev loc) = rev b"
    using b by (subst takeWhile_append2) auto
  then show ?thesis by (simp add: basename_def)
qed

lemma Datafile_range_datafile_path:
  assumes "0 \<le> y" "y \<le> 9999" "0 \<le> m" "m \<le> 99"
  shows "Datafile_range (Datafile (datafile_path loc y m)) = month_range y m"
proof -
  let ?Y = "setw_fill 4 (show_nat (nat y))" and ?M = "setw_fill 2 (show_nat (nat m))"
  let ?b = "?Y @ ''-'' @ ?M @ ''.data''"
  have "nat y < 10 ^ 4" using assms by simp
  then have "length (show_nat (nat y)) \<le> 4" by (intro length_show_nat) simp_all
  then have ly: "length ?Y = 4" by (rule length_setw_fill)
  have "nat m < 10 ^ 2" using assms by simp
  then have "length (show_nat (nat m)) \<le> 2" by (intro length_show_nat) simp_all
  then have lm: "length ?M = 2" by (rule length_setw_fill)
  have ns: "CHR ''/'' \<notin> set ?b"
    using setw_fill_no_slash [OF show_nat_no_slash, of 4 "nat y"]
      setw_fill_no_slash [OF show_nat_no_slash, of 2 "nat m"] by simp
  have path: "datafile_path loc y m = loc @ ''/'' @ ?b"
    using assms by (simp add: datafile_path_def show_int_def)
  have base: "basename (name (Datafile (datafile_path loc y m))) = ?b"
    unfolding path using basename_append [OF ns] by (simp add: Datafile_def)
  have t4: "take 4 ?b = ?Y" using ly by simp
  have t2: "take 2 (drop 5 ?b) = ?M" using ly lm by simp
  show ?thesis
    unfolding Datafile_range_def base Let_def t4 t2 digits_value_setw_fill
    using assms by simp
qed

section \<open>Properties of the resolution\<close>

lemma findDatafile_loop_le: "findDatafile_loop r rs \<le> length rs"
  by (induction rs) auto

lemma findDatafile_le: "findDatafile r dfs \<le> length dfs"
  using findDatafile_loop_le [of r "rev dfs"] by (simp add: findDatafile_def)

text \<open>
  The loop of \<^verbatim>\<open>findDatafile\<close> and the algorithm of the spec differ only where the
  range of a file ends exactly at the start of the range looked for.
\<close>

lemma findDatafile_spec_loop_agrees:
  "\<forall>f \<in> set rs. end' (Datafile_range f) \<noteq> start r \<Longrightarrow>
   findDatafile_loop r rs = findDatafile_spec_loop r rs"
  by (induction rs) (auto simp: less_le)

lemma findDatafile_spec_agrees:
  "\<forall>f \<in> set dfs. end' (Datafile_range f) \<noteq> start r \<Longrightarrow>
   findDatafile r dfs = findDatafile_spec r dfs"
  by (simp add: findDatafile_def findDatafile_spec_def findDatafile_spec_loop_agrees)

lemma findDatafile_loop_passes:
  "\<forall>f \<in> set zs. \<not> fires r f \<Longrightarrow> findDatafile_loop r (zs @ ys) = findDatafile_loop r ys"
  by (induction zs) (auto simp: fires_def)

lemma findDatafile_loop_ranges:
  "map Datafile_range rs = map Datafile_range qs \<Longrightarrow> findDatafile_loop r rs = findDatafile_loop r qs"
proof (induction rs arbitrary: qs)
  case Nil
  then show ?case by simp
next
  case (Cons f rs)
  then obtain g qs' where q: "qs = g # qs'" by (cases qs) auto
  with Cons.prems have "Datafile_range f = Datafile_range g" "map Datafile_range rs = map Datafile_range qs'"
    by auto
  moreover from this have "length rs = length qs'" using map_eq_imp_length_eq by blast
  ultimately show ?case using Cons.IH [of qs'] q by simp
qed

lemma findDatafile_ranges:
  "map Datafile_range fs = map Datafile_range gs \<Longrightarrow> findDatafile r fs = findDatafile r gs"
  unfolding findDatafile_def by (rule findDatafile_loop_ranges) (simp add: rev_map [symmetric])

lemma findDatafile_loop_not_covered:
  assumes "\<not> (findDatafile_loop r rs < length rs
             \<and> startsWithin r (Datafile_range (rs ! (length rs - 1 - findDatafile_loop r rs))))"
  shows "\<forall>f \<in> set (take (length rs - findDatafile_loop r rs) rs). \<not> fires r f"
  using assms
proof (induction rs)
  case Nil
  then show ?case by simp
next
  case (Cons f older)
  show ?case
  proof (cases "startsWithin r (Datafile_range f)")
    case True
    with Cons.prems show ?thesis by simp
  next
    case nc: False
    show ?thesis
    proof (cases "end' (Datafile_range f) < start r")
      case True
      with nc show ?thesis by simp
    next
      case False
      let ?i = "findDatafile_loop r older"
      have le: "?i \<le> length older" by (rule findDatafile_loop_le)
      have eq: "findDatafile_loop r (f # older) = ?i" using nc False by simp
      have "\<not> (?i < length older \<and> startsWithin r (Datafile_range (older ! (length older - 1 - ?i))))"
      proof
        assume a: "?i < length older \<and> startsWithin r (Datafile_range (older ! (length older - 1 - ?i)))"
        then have "(f # older) ! (length (f # older) - 1 - ?i) = older ! (length older - 1 - ?i)"
          by (simp add: nth_Cons')
        with a Cons.prems eq show False by simp
      qed
      from Cons.IH [OF this] have ih: "\<forall>f \<in> set (take (length older - ?i) older). \<not> fires r f" .
      have "take (length (f # older) - ?i) (f # older) = f # take (length older - ?i) older"
        using le by (simp add: Suc_diff_le)
      with ih nc False eq show ?thesis by (simp add: fires_def)
    qed
  qed
qed

lemma findDatafile_not_covered:
  assumes "\<not> covers r dfs (findDatafile r dfs)"
  shows "\<forall>f \<in> set (drop (findDatafile r dfs) dfs). \<not> fires r f"
proof -
  let ?i = "findDatafile r dfs"
  have le: "?i \<le> length dfs" by (rule findDatafile_le)
  have "\<not> (?i < length dfs \<and> startsWithin r (Datafile_range (rev dfs ! (length dfs - 1 - ?i))))"
  proof
    assume a: "?i < length dfs \<and> startsWithin r (Datafile_range (rev dfs ! (length dfs - 1 - ?i)))"
    then have idx: "length dfs - Suc (length dfs - 1 - ?i) = ?i"
      and lt: "length dfs - 1 - ?i < length dfs" by arith+
    have "rev dfs ! (length dfs - 1 - ?i) = dfs ! ?i"
      using rev_nth [OF lt] idx by simp
    with a assms show False by (simp add: covers_def)
  qed
  then have "\<forall>f \<in> set (take (length (rev dfs) - findDatafile_loop r (rev dfs)) (rev dfs)). \<not> fires r f"
    by (intro findDatafile_loop_not_covered) (simp add: findDatafile_def)
  moreover have "length dfs - (length dfs - ?i) = ?i" using le by arith
  ultimately show ?thesis
    by (simp add: findDatafile_def take_rev)
qed

lemma findDatafile_emplace:
  assumes "\<not> covers r dfs (findDatafile r dfs)"
    and "startsWithin r (Datafile_range (Datafile path))"
  shows "findDatafile r (emplace (findDatafile r dfs) path dfs) = findDatafile r dfs"
proof -
  let ?i = "findDatafile r dfs"
  have le: "?i \<le> length dfs" by (rule findDatafile_le)
  have "\<forall>f \<in> set (rev (drop ?i dfs)). \<not> fires r f"
    using findDatafile_not_covered [OF assms(1)] by simp
  then have "findDatafile_loop r (rev (drop ?i dfs) @ Datafile path # rev (take ?i dfs))
      = findDatafile_loop r (Datafile path # rev (take ?i dfs))"
    by (rule findDatafile_loop_passes)
  also have "\<dots> = ?i" using assms(2) le by simp
  finally show ?thesis by (simp add: findDatafile_def emplace_def)
qed

lemma findDatafile_update:
  "Datafile_range f = Datafile_range (dfs ! i) \<Longrightarrow> findDatafile r (dfs[i := f]) = findDatafile r dfs"
  by (rule findDatafile_ranges)
     (cases "i < length dfs", simp_all add: map_update list_update_same_conv list_update_beyond)

lemma covers_update:
  "Datafile_range f = Datafile_range (dfs ! i) \<Longrightarrow> covers r (dfs[i := f]) j = covers r dfs j"
  by (cases "i < length dfs") (auto simp: covers_def nth_list_update list_update_beyond)

lemma startsWithin_month_range:
  assumes "1 \<le> month (start r)" "month (start r) \<le> 12"
  shows "startsWithin r (month_range (year (start r)) (month (start r)))"
  using assms
  by (cases "start r")
     (auto simp: startsWithin_def month_range_def Datetime_def next_month_def year_def month_def)

lemma startsWithin_new_datafile:
  assumes "valid_datetime (start r)"
  shows "startsWithin r (Datafile_range (Datafile (datafile_path loc (year (start r)) (month (start r)))))"
proof -
  from assms have "Datafile_range (Datafile (datafile_path loc (year (start r)) (month (start r))))
      = month_range (year (start r)) (month (start r))"
    by (intro Datafile_range_datafile_path) (simp_all add: valid_datetime_def)
  with assms show ?thesis
    by (simp add: startsWithin_month_range valid_datetime_def)
qed

lemma getDatafile_resolves:
  assumes "valid_datetime (start interval)"
    and "getDatafile loc interval dfs = (fs, i)"
  shows "covers interval fs i \<and> findDatafile interval fs = i \<and> i < length fs"
proof (cases "covers interval dfs (findDatafile interval dfs)")
  case True
  with assms(2) have "fs = dfs" "i = findDatafile interval dfs"
    by (auto simp: getDatafile_def covers_def Let_def)
  with True findDatafile_le [of interval dfs] show ?thesis by (auto simp: covers_def)
next
  case False
  let ?p = "datafile_path loc (year (start interval)) (month (start interval))"
  from False assms(2) have fs: "fs = emplace (findDatafile interval dfs) ?p dfs"
    and i: "i = findDatafile interval dfs"
    by (auto simp: getDatafile_def covers_def Let_def)
  have new: "startsWithin interval (Datafile_range (Datafile ?p))"
    using assms(1) by (rule startsWithin_new_datafile)
  have le: "i \<le> length dfs" unfolding i by (rule findDatafile_le)
  have "findDatafile interval fs = i" unfolding fs i by (rule findDatafile_emplace [OF False new])
  moreover have "fs ! i = Datafile ?p" using le by (simp add: fs i [symmetric] emplace_def nth_append)
  moreover have "i < length fs" using le by (simp add: fs i [symmetric] emplace_def)
  ultimately show ?thesis using new by (simp add: covers_def)
qed

lemma name_load_lines: "name (load_lines d f) = name f"
  by (simp add: load_lines_def)

lemma name_Datafile_deleteInterval: "name (snd (Datafile_deleteInterval d l f)) = name f"
  by (simp add: Datafile_deleteInterval_def Let_def name_load_lines)

lemma name_Datafile_addInterval: "name (snd (Datafile_addInterval d l f)) = name f"
  by (simp add: Datafile_addInterval_def Let_def name_load_lines)

lemma Datafile_range_name: "name f = name g \<Longrightarrow> Datafile_range f = Datafile_range g"
  by (simp add: Datafile_range_def)

lemma Database_deleteInterval_returns:
  assumes "valid_datetime (start interval)"
    and "getDatafile (location db) interval (files db) = (fs, i)"
  shows "Database_deleteInterval db interval =
     Inr (db\<lparr>files := fs[i := snd (Datafile_deleteInterval (disk db) interval (fs ! i))],
             tagInfoDatabase := fold decrementTag (tags interval) (tagInfoDatabase db),
             journal := recordIntervalAction (Some interval) None (journal db)\<rparr>)"
proof -
  let ?f = "snd (Datafile_deleteInterval (disk db) interval (fs ! i))"
  have r: "Datafile_range ?f = Datafile_range (fs ! i)"
    by (rule Datafile_range_name) (rule name_Datafile_deleteInterval)
  from getDatafile_resolves [OF assms] have c: "covers interval fs i" "findDatafile interval fs = i"
    by simp_all
  have "findDatafile interval (fs[i := ?f]) = i" using findDatafile_update [OF r, where r = interval] c by simp
  moreover have "covers interval (fs[i := ?f]) i" using covers_update [OF r, where r = interval] c by simp
  ultimately show ?thesis
    using assms(2)
    by (simp add: Database_deleteInterval_def deleteInterval_with_def covers_def Let_def)
qed

section \<open>Evaluation on concrete stores\<close>

lemmas eval_defs =
  and_then_def Interval_def jan15_def feb01_def feb15_def
  initialize_def initializeTagDatabase_def recreate_def initializeDatafiles_def
  Database_begin_def Database_end_def Database_rbegin_def Database_rend_def
  iterator_new_def iterator_eq_def iterator_incr_def
  TagInfoDatabase_def toJson_def recreate_tags_def
  Database_addInterval_def addInterval_with_def Database_deleteInterval_def deleteInterval_with_def
  getDatafile_def findDatafile_def emplace_def datafile_path_def setw_fill_def show_int_def show_nat.simps
  digit_of_def Datafile_def Datafile_range_def basename_def digits_value_def digit_value_def
  month_range_def next_month_def Datetime_def startsWithin_def is_open_def epoch0_def year_def month_def
  Datafile_addInterval_def Datafile_deleteInterval_def load_lines_def allLines_def
  line_less_def line_key_def end_key_def recordIntervalAction_def
  Database_commit_def Datafile_commit_def reopen_def not_valid_filename_def parse_tags_def
  clear_modified_def

lemma store0_getDatafile:
  "getDatafile (location store0) feb01 (files store0) = ([Datafile ''./2020-02.data''], 0)"
  by (simp add: eval_defs store0_def)

section \<open>The resolution at a month boundary\<close>

text \<open>
  C4. With the single Datafile of January 2020 in the list and a range that starts on
  the first of February 2020 at 00:00, the end of the file's range equals the start of
  the range. The algorithm of the spec returns the insertion point after the file
  (position 1); \<^verbatim>\<open>findDatafile\<close> compares with \<open><\<close>, passes the file and returns
  the front of the list (position 0).
\<close>

theorem findDatafile_month_boundary:
  "findDatafile \<lparr>start = (2020, 2, 0), end' = (2020, 2, 3600)\<rparr> [Datafile ''./2020-01.data''] = 0
   \<and> findDatafile_spec \<lparr>start = (2020, 2, 0), end' = (2020, 2, 3600)\<rparr> [Datafile ''./2020-01.data''] = 1
   \<and> end' (Datafile_range (Datafile ''./2020-01.data'')) = (2020, 2, 0)"
  by (simp add: findDatafile_def findDatafile_spec_def Datafile_range_def Datafile_def
      basename_def digits_value_def digit_value_def month_range_def next_month_def
      Datetime_def startsWithin_def is_open_def epoch0_def)

section \<open>Undo records of addInterval and deleteInterval\<close>

text \<open>
  C8. For an interval that passes the assertion of \<^verbatim>\<open>addInterval\<close>, the call
  returns, and the journal has gained the undo record (interval, "", iv.json) if the
  \<^verbatim>\<open>addInterval\<close> of the target Datafile reported a change, and is unchanged if it
  reported none. This holds whatever the Datafile does.
\<close>

theorem addInterval_records_iff_changed:
  assumes "end' interval = epoch0 \<or> start interval \<le> end' interval"
    and "getDatafile (location db) interval (files db) = (fs, i)"
  shows "\<exists>db1. addInterval_with df_add db interval verbose = Inr db1
     \<and> journal db1 =
        (if fst (df_add (disk db) interval (fs ! i))
         then journal db @ [\<lparr>type = ''interval'', before = None, after = Some interval\<rparr>]
         else journal db)"
  using assms
  by (auto simp: addInterval_with_def recordIntervalAction_def Let_def split: prod.splits)

theorem addInterval_records_iff_changed_witness:
  "(\<exists>db1. addInterval_with Datafile_addInterval store0 feb01 True = Inr db1
      \<and> journal db1 = [\<lparr>type = ''interval'', before = None, after = Some feb01\<rparr>])
   \<and> (\<exists>db1. addInterval_with (\<lambda>d l f. (False, f)) store0 feb01 True = Inr db1 \<and> journal db1 = [])"
proof -
  have v: "end' feb01 = epoch0 \<or> start feb01 \<le> end' feb01"
    by (simp add: eval_defs)
  have g: "getDatafile (location store0) feb01 (files store0) = ([Datafile ''./2020-02.data''], 0)"
    by (simp add: eval_defs store0_def)
  show ?thesis
    using addInterval_records_iff_changed [OF v g, of Datafile_addInterval True]
      addInterval_records_iff_changed [OF v g, of "\<lambda>d l f. (False, f)" True]
    by (simp add: store0_def Datafile_addInterval_def Let_def)
qed

text \<open>
  C9. A call of \<^verbatim>\<open>deleteInterval\<close> that does not throw appends the undo record
  (interval, iv.json, "") whatever the \<^verbatim>\<open>deleteInterval\<close> of the Datafile did or
  returned; the witness is a deletion from a Datafile that does not hold the line, which
  the Datafile reports as false.
\<close>

theorem deleteInterval_records_unconditionally:
  assumes "deleteInterval_with df_delete db interval = Inr db1"
  shows "journal db1 = journal db @ [\<lparr>type = ''interval'', before = Some interval, after = None\<rparr>]"
  using assms
  by (auto simp: deleteInterval_with_def recordIntervalAction_def Let_def split: prod.splits if_splits)

theorem deleteInterval_records_unconditionally_witness:
  "fst (Datafile_deleteInterval (disk store0) feb01 (Datafile ''./2020-02.data'')) = False
   \<and> (\<exists>db1. deleteInterval_with Datafile_deleteInterval store0 feb01 = Inr db1
        \<and> journal db1 = [\<lparr>type = ''interval'', before = Some feb01, after = None\<rparr>])"
proof -
  have v: "valid_datetime (start feb01)"
    by (simp add: valid_datetime_def eval_defs)
  from Database_deleteInterval_returns [OF v store0_getDatafile]
  obtain db1 where r: "deleteInterval_with Datafile_deleteInterval store0 feb01 = Inr db1"
    by (simp add: Database_deleteInterval_def)
  from deleteInterval_records_unconditionally [OF r] r show ?thesis
    by (simp add: store0_def Datafile_deleteInterval_def load_lines_def Datafile_def)
qed

section \<open>Failure of deleteInterval\<close>

text \<open>
  C1. \<^verbatim>\<open>deleteInterval\<close> throws the NotFound error if and only if the Datafile that
  \<^verbatim>\<open>findDatafile\<close> resolves for the interval, after the deletion in the Datafile,
  does not cover the start of the interval; when it does cover it, the call returns and
  the undo record (interval, iv.json, "") has been appended.
\<close>

theorem deleteInterval_NotFound_iff:
  assumes "getDatafile (location db) interval (files db) = (fs, i)"
    and "gs = fs[i := snd (df_delete (disk db) interval (fs ! i))]"
  shows "((\<exists>db1. deleteInterval_with df_delete db interval = Inl (NotFound, db1))
            \<longleftrightarrow> \<not> covers interval gs (findDatafile interval gs))
       \<and> (covers interval gs (findDatafile interval gs) \<longrightarrow>
            (\<exists>db1. deleteInterval_with df_delete db interval = Inr db1
               \<and> journal db1 = journal db @ [\<lparr>type = ''interval'', before = Some interval, after = None\<rparr>]))"
  using assms
  by (auto simp: deleteInterval_with_def recordIntervalAction_def covers_def Let_def split: prod.splits)

theorem deleteInterval_NotFound_iff_witness:
  "covers feb01 [snd (Datafile_deleteInterval [] feb01 (Datafile ''./2020-02.data''))] 0
   \<and> (\<exists>db1. deleteInterval_with Datafile_deleteInterval store0 feb01 = Inr db1
        \<and> journal db1 = [\<lparr>type = ''interval'', before = Some feb01, after = None\<rparr>])
   \<and> \<not> (\<exists>db1. deleteInterval_with Datafile_deleteInterval store0 feb01 = Inl (NotFound, db1))"
proof -
  let ?fs1 = "[snd (Datafile_deleteInterval [] feb01 (Datafile ''./2020-02.data''))]"
  have f: "?fs1 = [Datafile ''./2020-02.data''][0 := snd (Datafile_deleteInterval (disk store0) feb01 ([Datafile ''./2020-02.data''] ! 0))]"
    by (simp add: store0_def)
  have i: "findDatafile feb01 ?fs1 = 0"
    by (simp add: eval_defs)
  have c: "covers feb01 ?fs1 0"
    by (simp add: covers_def eval_defs)
  from deleteInterval_NotFound_iff [where db = store0 and interval = feb01 and i = 0
      and fs = "[Datafile ''./2020-02.data'']" and gs = ?fs1 and df_delete = Datafile_deleteInterval,
      OF store0_getDatafile f] i c
  show ?thesis
    by (simp add: store0_def)
qed

section \<open>What deleteInterval changes\<close>




section \<open>Stores with an interval that starts at a month boundary\<close>

lemma store0_initialize: "initialize ''.'' [] None [] = Inr store0"
  by (simp add: eval_defs store0_def split del: if_split)

text \<open>
  C3. On the Database constructed on an empty directory, \<^verbatim>\<open>addInterval\<close> of an
  interval that starts 2020-01-15, of one that starts 2020-02-01 at 00:00 and of one that
  starts 2020-02-15 leaves the Datafile list 2020-02, 2020-01, 2020-02: the list is not
  sorted ascending by month, and it holds two Datafiles for February 2020.
\<close>

theorem datafiles_unsorted_duplicated:
  "\<exists>db. and_then (and_then (Database_addInterval store0 jan15 True)
      (\<lambda>db. Database_addInterval db feb01 True))
      (\<lambda>db. Database_addInterval db feb15 True) = Inr db
   \<and> map name (files db) = [''./2020-02.data'', ''./2020-01.data'', ''./2020-02.data'']
   \<and> map (\<lambda>f. start (Datafile_range f)) (files db) = [(2020, 2, 0), (2020, 1, 0), (2020, 2, 0)]
   \<and> \<not> distinct (map name (files db))
   \<and> \<not> sorted (map (\<lambda>f. start (Datafile_range f)) (files db))"
  by (simp add: eval_defs store0_def split del: if_split)

text \<open>
  C2. The same three intervals are added to the empty store, the store is committed and
  constructed again on its directory. Both Datafiles of February 2020 were written to
  the one file 2020-02.data, the later over the earlier: the forward iteration yields two
  lines, not three, and the interval that starts 2020-02-01 at 00:00 is lost.
\<close>

theorem reopened_store_loses_line:
  "\<exists>db db1. and_then (and_then (Database_addInterval store0 jan15 True)
      (\<lambda>db. Database_addInterval db feb01 True))
      (\<lambda>db. Database_addInterval db feb15 True) = Inr db
   \<and> reopen (Database_commit db) = Inr db1
   \<and> iterate (Database_begin db1) (Database_end db1) = Some [feb15, jan15]
   \<and> iterate (Database_rbegin db1) (Database_rend db1) = Some [jan15, feb15]"
  by (simp add: eval_defs store0_def iterate.simps split del: if_split)

text \<open>
  C5. The store \<open>pre\<close> is the committed store that holds the intervals starting
  2020-01-15 and 2020-02-01 at 00:00. \<^verbatim>\<open>addInterval\<close> of the interval starting
  2020-02-15, \<^verbatim>\<open>deleteInterval\<close> of the same interval and \<^verbatim>\<open>commit\<close> lead to
  the store \<open>post\<close>, which has one more Datafile, a second one for February 2020 with
  the line of 2020-02-01; the iteration over the store yields that line twice.
\<close>

theorem add_delete_commit_changes_store:
  "\<exists>db pre db1 post.
       and_then (Database_addInterval store0 jan15 True) (\<lambda>db. Database_addInterval db feb01 True) = Inr db
     \<and> pre = Database_commit db
     \<and> and_then (Database_addInterval pre feb15 True) (\<lambda>db. Database_deleteInterval db feb15) = Inr db1
     \<and> post = Database_commit db1
     \<and> iterate (Database_rbegin pre) (Database_rend pre) = Some [feb01, jan15]
     \<and> iterate (Database_rbegin post) (Database_rend post) = Some [feb01, jan15, feb01]
     \<and> map lines (files pre) = [[feb01], [jan15]]
     \<and> map lines (files post) = [[feb01], [jan15], [feb01]]"
proof -
  let ?F = "\<lambda>n ls d. \<lparr>name = n, lines = ls, lines_loaded = True, dirty = d\<rparr>"
  let ?A = "\<lambda>l. \<lparr>type = ''interval'', before = None, after = Some l\<rparr>"
  let ?D = "\<lambda>l. \<lparr>type = ''interval'', before = Some l, after = None\<rparr>"
  let ?disk = "[(''./2020-02.data'', [feb01]), (''./2020-01.data'', [jan15])]"
  let ?S = "\<lambda>fs j d. \<lparr>location = ''.'', files = fs, tagInfoDatabase = TagInfoDatabase,
      journal = j, console = [], disk = d, tags_data = Some (Parsed (JObject []))\<rparr>"
  let ?db = "?S [?F ''./2020-02.data'' [feb01] True, ?F ''./2020-01.data'' [jan15] True]
      [?A jan15, ?A feb01] []"
  let ?pre = "?S [?F ''./2020-02.data'' [feb01] False, ?F ''./2020-01.data'' [jan15] False]
      [?A jan15, ?A feb01] ?disk"
  let ?mid = "?S [?F ''./2020-02.data'' [feb01] False, ?F ''./2020-01.data'' [jan15] False,
       ?F ''./2020-02.data'' [feb01, feb15] True]
      [?A jan15, ?A feb01, ?A feb15] ?disk"
  let ?db1 = "?S [?F ''./2020-02.data'' [feb01] False, ?F ''./2020-01.data'' [jan15] False,
       ?F ''./2020-02.data'' [feb01] True]
      [?A jan15, ?A feb01, ?A feb15, ?D feb15] ?disk"
  let ?post = "?S [?F ''./2020-02.data'' [feb01] False, ?F ''./2020-01.data'' [jan15] False,
       ?F ''./2020-02.data'' [feb01] False]
      [?A jan15, ?A feb01, ?A feb15, ?D feb15] ?disk"
  have 1: "and_then (Database_addInterval store0 jan15 True)
      (\<lambda>db. Database_addInterval db feb01 True) = Inr ?db"
    by (simp add: eval_defs store0_def split del: if_split)
  have 2: "?pre = Database_commit ?db"
    by (simp add: eval_defs split del: if_split)
  have a: "Database_addInterval ?pre feb15 True = Inr ?mid"
    by (simp add: eval_defs split del: if_split)
  have v: "valid_datetime (start feb15)"
    by (simp add: valid_datetime_def eval_defs)
  have g: "getDatafile (location ?mid) feb15 (files ?mid) = (files ?mid, 2)"
    by (simp add: eval_defs split del: if_split)
  have d: "Database_deleteInterval ?mid feb15 = Inr ?db1"
    unfolding Database_deleteInterval_returns [OF v g]
    by (simp add: eval_defs split del: if_split)
  have 3: "and_then (Database_addInterval ?pre feb15 True)
      (\<lambda>db. Database_deleteInterval db feb15) = Inr ?db1"
    unfolding a using d by (simp add: and_then_def)
  have 4: "?post = Database_commit ?db1"
    by (simp add: eval_defs split del: if_split)
  have 5: "iterate (Database_rbegin ?pre) (Database_rend ?pre) = Some [feb01, jan15]"
    by (simp add: iterate.simps Database_rbegin_def Database_rend_def iterator_new_def
        iterator_eq_def iterator_incr_def allLines_def load_lines_def split del: if_split)
  have 6: "iterate (Database_rbegin ?post) (Database_rend ?post) = Some [feb01, jan15, feb01]"
    by (simp add: iterate.simps Database_rbegin_def Database_rend_def iterator_new_def
        iterator_eq_def iterator_incr_def allLines_def load_lines_def split del: if_split)
  have 7: "map lines (files ?pre) = [[feb01], [jan15]]" by simp
  have 8: "map lines (files ?post) = [[feb01], [jan15], [feb01]]" by simp
  show ?thesis
    by (rule exI [of _ ?db], rule exI [of _ ?pre], rule exI [of _ ?db1], rule exI [of _ ?post])
       (intro conjI 1 2 3 4 5 6 7 8)
qed

section \<open>Iteration over the store\<close>








section \<open>Recreating the tag database\<close>













section \<open>The months of a range\<close>

















end
